theory Spec2Isabelle
  imports Complex_Main
begin

section \<open>Documents of the identities table\<close>

text \<open>
  The wrapper in \<^verbatim>\<open>api/environments/dynamodb/wrappers/identity_wrapper.py\<close> handles
  items of a DynamoDB table as Python values: \<^verbatim>\<open>None\<close>, booleans, numbers (the table
  resource gives \<^verbatim>\<open>Decimal\<close>), strings, lists and dicts. A Python \<^verbatim>\<open>str\<close> is a
  sequence of Unicode code points, and \<^verbatim>\<open>len\<close> counts code points, so a string value
  is a list of code points here. Dict keys are the ASCII literals of the source and stay
  HOL strings.
\<close>

type_synonym pystr = "nat list"

datatype attr =
    NULL
  | BOOL bool
  | N rat
  | S pystr
  | L "attr list"
  | M "(string \<times> attr) list"

type_synonym item = "(string \<times> attr) list"

text \<open>
  The budget of a scan is a \<^verbatim>\<open>Decimal\<close>, by default \<^verbatim>\<open>Decimal("Inf")\<close>: a number or
  unbounded. (\<^verbatim>\<open>Decimal\<close>'s NaN and negative infinity are not budgets and are left out.)
\<close>

datatype budget = Finite rat | Infinity

datatype error =
    CapacityBudgetExceeded budget rat
  | TransportError
  | KeyError string
  | TypeError
  | AttributeError
  | IndexError
  | ObjectDoesNotExist
  | NotFound
  | ValueError

section \<open>Requests to the table and its answers\<close>

datatype key_condition = Key_eq string string

datatype condition = Attr_ne string attr | Condition_str string

record query_input =
  IndexName :: string
  KeyConditionExpression :: key_condition
  Limit :: int
  ExclusiveStartKey :: "item option"
  FilterExpression :: "condition option"
  ProjectionExpression :: "string option"
  ReturnConsumedCapacity :: "string option"

record consumed_capacity =
  CapacityUnits :: "rat option"

record query_output =
  Items :: "item list"
  LastEvaluatedKey :: "item option"
  ConsumedCapacity :: "consumed_capacity option"

text \<open>
  The table is outside the repository. During one operation it is a script: the answer
  it gives to the first query, to the second, and so on, each as a function of the
  request it receives. A query made when the script has run out fails at the transport
  layer; the wrapper catches no such failure, so it ends the operation.
\<close>

type_synonym table = "(query_input \<Rightarrow> query_output) list"

fun query_items :: "table \<Rightarrow> query_input \<Rightarrow> (error + query_output) \<times> table" where
  "query_items [] q = (Inl TransportError, [])"
| "query_items (answer # rest) q = (Inr (answer q), rest)"

section \<open>One page: \<^verbatim>\<open>get_all_items\<close>\<close>

record get_all_items_kwargs =
  environment_api_key :: string
  limit :: int
  start_key :: "item option"
  filter_expression :: "condition option"
  projection_expression :: "string option"
  return_consumed_capacity :: bool

text \<open>Python truthiness of the optional arguments: \<^verbatim>\<open>None\<close>, an empty dict and an empty
  string are false; a condition object is true.\<close>

fun truthy_key :: "item option \<Rightarrow> bool" where
  "truthy_key None = False"
| "truthy_key (Some k) = (k \<noteq> [])"

fun truthy_condition :: "condition option \<Rightarrow> bool" where
  "truthy_condition None = False"
| "truthy_condition (Some (Condition_str s)) = (s \<noteq> [])"
| "truthy_condition (Some (Attr_ne a v)) = True"

fun truthy_str :: "string option \<Rightarrow> bool" where
  "truthy_str None = False"
| "truthy_str (Some s) = (s \<noteq> [])"

definition query_kwargs :: "get_all_items_kwargs \<Rightarrow> query_input" where
  "query_kwargs kw =
     \<lparr> IndexName = ''environment_api_key-identifier-index'',
       KeyConditionExpression = Key_eq ''environment_api_key'' (environment_api_key kw),
       Limit = limit kw,
       ExclusiveStartKey = (if truthy_key (start_key kw) then start_key kw else None),
       FilterExpression =
         (if truthy_condition (filter_expression kw) then filter_expression kw else None),
       ProjectionExpression =
         (if truthy_str (projection_expression kw) then projection_expression kw else None),
       ReturnConsumedCapacity =
         (if return_consumed_capacity kw then Some ''TOTAL'' else None) \<rparr>"

definition get_all_items ::
  "table \<Rightarrow> get_all_items_kwargs \<Rightarrow> (error + query_output) \<times> table" where
  "get_all_items tbl kw = query_items tbl (query_kwargs kw)"

section \<open>The paginated scan: \<^verbatim>\<open>iter_all_items_paginated\<close>\<close>

text \<open>
  What a caller who drains the generator observes: the requests sent to the table, the
  pages received, the items yielded, the capacity counted, and how the generator ended
  (\<open>None\<close>: it was exhausted; \<open>Some e\<close>: it raised \<open>e\<close>).
\<close>

record scan =
  requests :: "query_input list"
  pages :: "query_output list"
  yielded :: "item list"
  capacity_spent :: rat
  outcome :: "error option"

text \<open>\<^verbatim>\<open>capacity_spent >= capacity_budget\<close>\<close>

fun budget_reached :: "rat \<Rightarrow> budget \<Rightarrow> bool" where
  "budget_reached spent (Finite b) = (b \<le> spent)"
| "budget_reached spent Infinity = False"

text \<open>\<^verbatim>\<open>query_response["ConsumedCapacity"]["CapacityUnits"]\<close>; \<open>None\<close> when either key
  is missing (\<^verbatim>\<open>KeyError\<close>).\<close>

definition reported :: "query_output \<Rightarrow> rat option" where
  "reported response =
     (case ConsumedCapacity response of
        None \<Rightarrow> None
      | Some cc \<Rightarrow> CapacityUnits cc)"

text \<open>
  \<^verbatim>\<open>with suppress(KeyError): capacity_spent += ...\<close>. The figures are Python numbers
  (floats from the store's client, or \<^verbatim>\<open>Decimal\<close>s), and their addition rounds: it is not
  the addition of the rationals. The addition is therefore a parameter, \<open>py_add\<close>, of the
  scan and of everything that scans. Every finite float or \<^verbatim>\<open>Decimal\<close> is a rational, and
  Python compares numbers of the two kinds exactly, so values are rationals and \<^verbatim>\<open>>=\<close> is
  the order of the rationals. (A total that leaves the range of the floats is not
  modelled: \<open>py_add\<close> gives a finite number.) A page without a figure adds nothing.
\<close>

definition spend :: "(rat \<Rightarrow> rat \<Rightarrow> rat) \<Rightarrow> rat \<Rightarrow> query_output \<Rightarrow> rat" where
  "spend py_add spent response =
     (case reported response of None \<Rightarrow> spent | Some c \<Rightarrow> py_add spent c)"

text \<open>The body of \<^verbatim>\<open>while last_evaluated_key:\<close>, entered with a true key.\<close>

function scan_loop ::
  "(rat \<Rightarrow> rat \<Rightarrow> rat) \<Rightarrow> budget \<Rightarrow> get_all_items_kwargs \<Rightarrow> rat \<Rightarrow> table \<Rightarrow> scan" where
  "scan_loop py_add capacity_budget kw spent tbl =
     (if budget_reached spent capacity_budget then
        \<lparr> requests = [], pages = [], yielded = [], capacity_spent = spent,
          outcome = Some (CapacityBudgetExceeded capacity_budget spent) \<rparr>
      else
        (case get_all_items tbl kw of
           (Inl e, tbl') \<Rightarrow>
             \<lparr> requests = [query_kwargs kw], pages = [], yielded = [],
               capacity_spent = spent, outcome = Some e \<rparr>
         | (Inr query_response, tbl') \<Rightarrow>
             (let spent' = spend py_add spent query_response in
              if truthy_key (LastEvaluatedKey query_response) then
                (let r = scan_loop py_add capacity_budget
                           (kw\<lparr>start_key := LastEvaluatedKey query_response\<rparr>) spent' tbl'
                 in r\<lparr> requests := query_kwargs kw # requests r,
                       pages := query_response # pages r,
                       yielded := Items query_response @ yielded r \<rparr>)
              else
                \<lparr> requests = [query_kwargs kw], pages = [query_response],
                  yielded = Items query_response, capacity_spent = spent',
                  outcome = None \<rparr>)))"
  by pat_completeness auto
termination
  apply (relation "measure (\<lambda>(py_add, b, kw, spent, tbl). length tbl)")
   apply simp
  subgoal for py_add capacity_budget kw spent tbl
    by (cases tbl) (auto simp: get_all_items_def)
  done

definition initial_kwargs ::
  "string \<Rightarrow> int \<Rightarrow> string option \<Rightarrow> budget \<Rightarrow> bool \<Rightarrow> get_all_items_kwargs" where
  "initial_kwargs api_key page_limit projection capacity_budget overrides_only =
     \<lparr> environment_api_key = api_key,
       limit = page_limit,
       start_key = None,
       filter_expression =
         (if overrides_only then Some (Attr_ne ''identity_features'' (L [])) else None),
       projection_expression = projection,
       return_consumed_capacity = (capacity_budget \<noteq> Infinity) \<rparr>"

definition iter_all_items_paginated ::
  "(rat \<Rightarrow> rat \<Rightarrow> rat) \<Rightarrow> table \<Rightarrow> string \<Rightarrow> int \<Rightarrow> string option \<Rightarrow> budget \<Rightarrow> bool \<Rightarrow>
   scan" where
  "iter_all_items_paginated py_add tbl api_key page_limit projection capacity_budget
     overrides_only =
     scan_loop py_add capacity_budget
       (initial_kwargs api_key page_limit projection capacity_budget overrides_only) 0 tbl"

text \<open>
  Two properties of the store that the wrapper relies on and cannot check: a page reports
  consumed capacity only when the request asks for it, and a page holds only items that
  pass the request's filter (\<^verbatim>\<open>Attr(a).ne(v)\<close>: the item's attribute \<open>a\<close> is not \<open>v\<close>).
\<close>

definition reports_only_on_request :: "(query_input \<Rightarrow> query_output) \<Rightarrow> bool" where
  "reports_only_on_request answer =
     (\<forall>q. ReturnConsumedCapacity q = None \<longrightarrow> ConsumedCapacity (answer q) = None)"


section \<open>Python operations on document values\<close>

text \<open>\<^verbatim>\<open>for x in v\<close>: a list gives its elements, a dict its keys, a string its characters;
  anything else is not iterable.\<close>

fun py_iter :: "attr \<Rightarrow> error + attr list" where
  "py_iter (L xs) = Inr xs"
| "py_iter (M kvs) = Inr (map (\<lambda>k. S (map of_char k)) (remdups (map fst kvs)))"
| "py_iter (S s) = Inr (map (\<lambda>c. S [c]) s)"
| "py_iter v = Inl TypeError"

text \<open>\<^verbatim>\<open>v[k]\<close> with a string \<open>k\<close>: only a dict can be indexed by a string.\<close>

fun py_getitem :: "attr \<Rightarrow> string \<Rightarrow> error + attr" where
  "py_getitem (M kvs) k = (case map_of kvs k of None \<Rightarrow> Inl (KeyError k) | Some v \<Rightarrow> Inr v)"
| "py_getitem v k = Inl TypeError"

text \<open>\<^verbatim>\<open>v.get(k, default)\<close>: only a dict has \<^verbatim>\<open>get\<close>.\<close>

fun py_get :: "attr \<Rightarrow> string \<Rightarrow> attr \<Rightarrow> error + attr" where
  "py_get (M kvs) k d = Inr (case map_of kvs k of None \<Rightarrow> d | Some v \<Rightarrow> v)"
| "py_get v k d = Inl AttributeError"

text \<open>An element of a set or a key of a dict: lists and dicts are unhashable, and
  \<^verbatim>\<open>True\<close> and \<^verbatim>\<open>False\<close> are the numbers 1 and 0.\<close>

fun py_hashable :: "attr \<Rightarrow> error + attr" where
  "py_hashable (L xs) = Inl TypeError"
| "py_hashable (M kvs) = Inl TypeError"
| "py_hashable (BOOL b) = Inr (N (if b then 1 else 0))"
| "py_hashable v = Inr v"

text \<open>\<^verbatim>\<open>len(v)\<close>\<close>

fun py_len :: "attr \<Rightarrow> error + nat" where
  "py_len (S s) = Inr (length s)"
| "py_len (L xs) = Inr (length xs)"
| "py_len (M kvs) = Inr (length (remdups (map fst kvs)))"
| "py_len v = Inl TypeError"

section \<open>The override aggregators\<close>

text \<open>\<^verbatim>\<open>f["feature_id"]\<close> as an element of a set.\<close>

definition feature_id_subscript :: "attr \<Rightarrow> error + attr" where
  "feature_id_subscript f =
     (case py_getitem f ''feature_id'' of Inl e \<Rightarrow> Inl e | Inr v \<Rightarrow> py_hashable v)"

text \<open>\<^verbatim>\<open>{f["feature_id"] for f in identity["identity_features"]}\<close>, a set kept as a list
  without repetition.\<close>

fun feature_id_set :: "attr list \<Rightarrow> attr list \<Rightarrow> error + attr list" where
  "feature_id_set [] acc = Inr acc"
| "feature_id_set (f # fs) acc =
     (case feature_id_subscript f of
        Inl e \<Rightarrow> Inl e
      | Inr k \<Rightarrow> feature_id_set fs (List.insert k acc))"

definition identity_overrides :: "item \<Rightarrow> error + nat" where
  "identity_overrides identity =
     (case map_of identity ''identity_features'' of
        None \<Rightarrow> Inl (KeyError ''identity_features'')
      | Some v \<Rightarrow>
          (case py_iter v of
             Inl e \<Rightarrow> Inl e
           | Inr fs \<Rightarrow>
               (case feature_id_set fs [] of
                  Inl e \<Rightarrow> Inl e
                | Inr ks \<Rightarrow> Inr (length ks))))"

text \<open>\<^verbatim>\<open>sum(... for identity in generator)\<close>: the identities yielded are summed in
  order; the generator's own error, if it ends with one, comes after the last of them.\<close>

fun sum_overrides :: "item list \<Rightarrow> error option \<Rightarrow> nat \<Rightarrow> error + nat" where
  "sum_overrides [] None running = Inr running"
| "sum_overrides [] (Some e) running = Inl e"
| "sum_overrides (identity # rest) ended running =
     (case identity_overrides identity of
        Inl e \<Rightarrow> Inl e
      | Inr n \<Rightarrow> sum_overrides rest ended (running + n))"

definition get_identity_overrides_count ::
  "(rat \<Rightarrow> rat \<Rightarrow> rat) \<Rightarrow> table \<Rightarrow> int \<Rightarrow> string \<Rightarrow> error + nat" where
  "get_identity_overrides_count py_add tbl IDENTITIES_PAGINATION_LIMIT api_key =
     (let generator =
            iter_all_items_paginated py_add tbl api_key IDENTITIES_PAGINATION_LIMIT None Infinity True
      in sum_overrides (yielded generator) (outcome generator) 0)"

text \<open>\<^verbatim>\<open>feature_override.get("feature", {}).get("id", 0)\<close> as an element of a set.\<close>

definition feature_id_default :: "attr \<Rightarrow> error + attr" where
  "feature_id_default feature_override =
     (case py_get feature_override ''feature'' (M []) of
        Inl e \<Rightarrow> Inl e
      | Inr feature \<Rightarrow>
          (case py_get feature ''id'' (N 0) of Inl e \<Rightarrow> Inl e | Inr v \<Rightarrow> py_hashable v))"

text \<open>The inner loops of \<^verbatim>\<open>get_identity_override_feature_counts\<close>.\<close>

fun unique_feature_ids :: "attr list \<Rightarrow> attr list \<Rightarrow> error + attr list" where
  "unique_feature_ids [] acc = Inr acc"
| "unique_feature_ids (feature_override # rest) acc =
     (case feature_id_default feature_override of
        Inl e \<Rightarrow> Inl e
      | Inr feature_id \<Rightarrow> unique_feature_ids rest (List.insert feature_id acc))"

definition get_count :: "(attr \<rightharpoonup> nat) \<Rightarrow> attr \<Rightarrow> nat" where
  "get_count m k = (case m k of None \<Rightarrow> 0 | Some c \<Rightarrow> c)"

fun count_identity :: "attr list \<Rightarrow> (attr \<rightharpoonup> nat) \<Rightarrow> (attr \<rightharpoonup> nat)" where
  "count_identity [] m = m"
| "count_identity (feature_id # rest) m =
     count_identity rest (m(feature_id \<mapsto> get_count m feature_id + 1))"

fun feature_counts ::
  "item list \<Rightarrow> error option \<Rightarrow> (attr \<rightharpoonup> nat) \<Rightarrow> error + (attr \<rightharpoonup> nat)" where
  "feature_counts [] None feature_to_identity_count = Inr feature_to_identity_count"
| "feature_counts [] (Some e) feature_to_identity_count = Inl e"
| "feature_counts (identity # rest) ended feature_to_identity_count =
     (case py_iter (case map_of identity ''identity_features'' of
                      None \<Rightarrow> L [] | Some v \<Rightarrow> v) of
        Inl e \<Rightarrow> Inl e
      | Inr overrides \<Rightarrow>
          (case unique_feature_ids overrides [] of
             Inl e \<Rightarrow> Inl e
           | Inr ks \<Rightarrow>
               feature_counts rest ended (count_identity ks feature_to_identity_count)))"

definition get_identity_override_feature_counts ::
  "(rat \<Rightarrow> rat \<Rightarrow> rat) \<Rightarrow> table \<Rightarrow> int \<Rightarrow> string \<Rightarrow> error + (attr \<rightharpoonup> nat)" where
  "get_identity_override_feature_counts py_add tbl IDENTITIES_PAGINATION_LIMIT api_key =
     (let generator =
            iter_all_items_paginated py_add tbl api_key IDENTITIES_PAGINATION_LIMIT None Infinity True
      in feature_counts (yielded generator) (outcome generator) Map.empty)"

section \<open>Bulk writes: \<^verbatim>\<open>write_identities\<close>\<close>

text \<open>
  \<^verbatim>\<open>map_identity_to_identity_document\<close> (\<^verbatim>\<open>util.mappers\<close>) and the \<^verbatim>\<open>Identity\<close> model
  are not among the sources: the mapper and the identity's \<^verbatim>\<open>id\<close> are parameters.
  The result is what the batch writer was given (\<^verbatim>\<open>batch.put_item\<close>, in order), the
  identities a warning was logged for, and the error that ended the loop, if any.
\<close>

record batch =
  put_requests :: "item list"
  warnings :: "int list"
  raised :: "error option"

fun write_identities :: "('i \<Rightarrow> item) \<Rightarrow> ('i \<Rightarrow> int) \<Rightarrow> 'i list \<Rightarrow> batch" where
  "write_identities map_identity_to_identity_document identity_id [] =
     \<lparr> put_requests = [], warnings = [], raised = None \<rparr>"
| "write_identities map_identity_to_identity_document identity_id (identity # rest) =
     (let identity_document = map_identity_to_identity_document identity in
      case map_of identity_document ''identifier'' of
        None \<Rightarrow> \<lparr> put_requests = [], warnings = [], raised = Some (KeyError ''identifier'') \<rparr>
      | Some identifier \<Rightarrow>
          (case py_len identifier of
             Inl e \<Rightarrow> \<lparr> put_requests = [], warnings = [], raised = Some e \<rparr>
           | Inr n \<Rightarrow>
               (let r = write_identities map_identity_to_identity_document identity_id rest in
                if n > 1024 then r\<lparr> warnings := identity_id identity # warnings r \<rparr>
                else r\<lparr> put_requests := identity_document # put_requests r \<rparr>)))"

text \<open>
  The length the store measures: the identifier is the sort key of an index, and the limit
  of a sort key is 1024 bytes of its UTF-8 encoding.
\<close>

definition utf8_bytes :: "nat \<Rightarrow> nat" where
  "utf8_bytes code_point =
     (if code_point < 128 then 1 else if code_point < 2048 then 2
      else if code_point < 65536 then 3 else 4)"

definition encoded_length :: "pystr \<Rightarrow> nat" where
  "encoded_length s = sum_list (map utf8_bytes s)"

section \<open>Lookup by uuid and segment membership\<close>

definition uuid_query :: "string \<Rightarrow> query_input" where
  "uuid_query uuid =
     \<lparr> IndexName = ''identity_uuid-index'',
       KeyConditionExpression = Key_eq ''identity_uuid'' uuid,
       Limit = 1,
       ExclusiveStartKey = None,
       FilterExpression = None,
       ProjectionExpression = None,
       ReturnConsumedCapacity = None \<rparr>"

definition get_item_from_uuid :: "table \<Rightarrow> string \<Rightarrow> (error + item) \<times> table" where
  "get_item_from_uuid tbl uuid =
     (case query_items tbl (uuid_query uuid) of
        (Inl e, tbl') \<Rightarrow> (Inl e, tbl')
      | (Inr response, tbl') \<Rightarrow>
          (case Items response of
             [] \<Rightarrow> (Inl ObjectDoesNotExist, tbl')
           | found # others \<Rightarrow> (Inr found, tbl')))"

definition get_item_from_uuid_or_404 :: "table \<Rightarrow> string \<Rightarrow> (error + item) \<times> table" where
  "get_item_from_uuid_or_404 tbl uuid =
     (case get_item_from_uuid tbl uuid of
        (Inl ObjectDoesNotExist, tbl') \<Rightarrow> (Inl NotFound, tbl')
      | other \<Rightarrow> other)"

text \<open>
  \<^verbatim>\<open>get_segment_ids\<close> calls code outside the sources: \<^verbatim>\<open>IdentityModel.model_validate\<close>,
  and, once it has the identity, the environment wrapper and the segment evaluator
  (here one parameter, \<open>segments_of\<close>, for the rest of the \<^verbatim>\<open>with\<close> block). Whatever
  they are, an \<^verbatim>\<open>ObjectDoesNotExist\<close> raised inside the block is suppressed and the
  function returns the empty list; any other error leaves the function.
\<close>

fun suppress_ObjectDoesNotExist :: "error + int list \<Rightarrow> error + int list" where
  "suppress_ObjectDoesNotExist (Inl ObjectDoesNotExist) = Inr []"
| "suppress_ObjectDoesNotExist result = result"

fun get_segment_ids ::
  "table \<Rightarrow> (item \<Rightarrow> error + 'm) \<Rightarrow> ('m \<Rightarrow> error + int list) \<Rightarrow>
   string option \<Rightarrow> 'm option \<Rightarrow> (error + int list) \<times> table" where
  "get_segment_ids tbl model_validate segments_of identity_pk (Some identity_model) =
     (suppress_ObjectDoesNotExist (segments_of identity_model), tbl)"
| "get_segment_ids tbl model_validate segments_of None None = (Inl ValueError, tbl)"
| "get_segment_ids tbl model_validate segments_of (Some pk) None =
     (if pk = [] then (Inl ValueError, tbl)
      else
        (case get_item_from_uuid tbl pk of
           (Inl e, tbl') \<Rightarrow> (suppress_ObjectDoesNotExist (Inl e), tbl')
         | (Inr found, tbl') \<Rightarrow>
             (case model_validate found of
                Inl e \<Rightarrow> (suppress_ObjectDoesNotExist (Inl e), tbl')
              | Inr identity \<Rightarrow> (suppress_ObjectDoesNotExist (segments_of identity), tbl'))))"

section \<open>Point writes and reads: \<^verbatim>\<open>put_item\<close>, \<^verbatim>\<open>get_item\<close>\<close>

text \<open>
  Modelled from the spec: the table object behind \<^verbatim>\<open>self.table\<close> (\<^verbatim>\<open>BaseDynamoWrapper\<close>
  in \<^verbatim>\<open>wrappers/base.py\<close>, and the store it reaches) is not among the sources. The spec
  gives its contract: \<^verbatim>\<open>put(item)\<close> is an upsert keyed by \<^verbatim>\<open>composite_key\<close>, a string;
  \<^verbatim>\<open>get(compositeKey)\<close> is a point lookup that gives the item or nothing. What the store
  does with an item that has no string \<^verbatim>\<open>composite_key\<close> the spec does not say; here it
  refuses the item and stays as it was.
\<close>

type_synonym key_value_table = "pystr \<rightharpoonup> item"

datatype store_error = ValidationException

definition table_put_item :: "key_value_table \<Rightarrow> item \<Rightarrow> store_error + key_value_table" where
  "table_put_item t it =
     (case map_of it ''composite_key'' of
        Some (S k) \<Rightarrow> Inr (t(k \<mapsto> it))
      | other \<Rightarrow> Inl ValidationException)"

definition table_get_item :: "key_value_table \<Rightarrow> pystr \<Rightarrow> item option" where
  "table_get_item t k = t k"

text \<open>The wrapper's two methods pass their argument on.\<close>

definition put_item :: "key_value_table \<Rightarrow> item \<Rightarrow> store_error + key_value_table" where
  "put_item t identity_dict = table_put_item t identity_dict"

definition get_item :: "key_value_table \<Rightarrow> pystr \<Rightarrow> item option" where
  "get_item t composite_key = table_get_item t composite_key"

section \<open>A store to run the operations on\<close>

text \<open>
  An answer of a well-behaved store, made from a stored page: it keeps the items that pass
  the request's filter and reports the page's capacity only when the request asks.
\<close>

definition store_page :: "query_output \<Rightarrow> query_input \<Rightarrow> query_output" where
  "store_page page q =
     \<lparr> Items =
         (case FilterExpression q of
            Some (Attr_ne a v) \<Rightarrow> filter (\<lambda>it. map_of it a \<noteq> Some v) (Items page)
          | other \<Rightarrow> Items page),
       LastEvaluatedKey = LastEvaluatedKey page,
       ConsumedCapacity =
         (if ReturnConsumedCapacity q = None then None else ConsumedCapacity page) \<rparr>"

definition page_a :: query_output where
  "page_a = \<lparr> Items = [[(''composite_key'', S [97])]],
               LastEvaluatedKey = Some [(''composite_key'', S [97])],
               ConsumedCapacity = Some \<lparr> CapacityUnits = Some 4 \<rparr> \<rparr>"

definition page_b :: query_output where
  "page_b = \<lparr> Items = [[(''composite_key'', S [98])], [(''composite_key'', S [99])]],
               LastEvaluatedKey = Some [(''composite_key'', S [99])],
               ConsumedCapacity = Some \<lparr> CapacityUnits = Some 7 \<rparr> \<rparr>"

definition page_c :: query_output where
  "page_c = \<lparr> Items = [[(''composite_key'', S [100])]],
               LastEvaluatedKey = None,
               ConsumedCapacity = Some \<lparr> CapacityUnits = Some 2 \<rparr> \<rparr>"

definition example_pages :: table where
  "example_pages = [store_page page_a, store_page page_b, store_page page_c]"

text \<open>
  Identities to aggregate. An override entry has the shape of the data model: the feature
  it overrides, with its id, and the overriding state.
\<close>

definition override :: "rat \<Rightarrow> attr" where
  "override feature = M [(''feature'', M [(''id'', N feature)]), (''enabled'', BOOL True)]"

definition identity_112 :: item where
  "identity_112 =
     [(''composite_key'', S [97]), (''identity_features'', L [override 1, override 1, override 2])]"


definition identity_2 :: item where
  "identity_2 = [(''composite_key'', S [99]), (''identity_features'', L [override 2])]"

text \<open>An identity whose only override has no feature id at all, one whose override has
  \<^verbatim>\<open>None\<close> for a feature, one whose feature id is a string, and one whose entries carry
  a top-level \<^verbatim>\<open>feature_id\<close>.\<close>

definition identity_no_id :: item where
  "identity_no_id =
     [(''composite_key'', S [100]), (''identity_features'', L [M [(''enabled'', BOOL True)]])]"

definition identity_null_feature :: item where
  "identity_null_feature =
     [(''composite_key'', S [101]), (''identity_features'', L [M [(''feature'', NULL)]])]"

definition identity_text_id :: item where
  "identity_text_id =
     [(''composite_key'', S [102]),
      (''identity_features'', L [M [(''feature'', M [(''id'', S [120])])]])]"

definition identity_keyed_112 :: item where
  "identity_keyed_112 =
     [(''composite_key'', S [103]),
      (''identity_features'',
       L [M [(''feature_id'', N 1)], M [(''feature_id'', N 1)], M [(''feature_id'', N 2)]])]"

definition single_page :: "item list \<Rightarrow> table" where
  "single_page identities =
     [store_page \<lparr> Items = identities, LastEvaluatedKey = None, ConsumedCapacity = None \<rparr>]"

text \<open>
  The feature id of an override entry, for stating what
  \<^verbatim>\<open>get_identity_override_feature_counts\<close> returns: 0 when the entry has no
  \<^verbatim>\<open>feature\<close> or its \<^verbatim>\<open>feature\<close> has no \<^verbatim>\<open>id\<close>, and otherwise the id that is there, as
  it is (as a key of a dict \<^verbatim>\<open>True\<close> and \<^verbatim>\<open>False\<close> are 1 and 0). There is none
  (\<open>None\<close>) when the entry is not a dict, its \<^verbatim>\<open>feature\<close> is not a dict, or the id is a
  list or a dict. The feature ids of an identity are those of its \<^verbatim>\<open>identity_features\<close>,
  which is absent or a list.
\<close>

fun override_feature_id :: "attr \<Rightarrow> attr option" where
  "override_feature_id (M kvs) =
     (case map_of kvs ''feature'' of
        None \<Rightarrow> Some (N 0)
      | Some (M feature) \<Rightarrow>
          (case map_of feature ''id'' of
             None \<Rightarrow> Some (N 0)
           | Some (L xs) \<Rightarrow> None
           | Some (M ys) \<Rightarrow> None
           | Some (BOOL b) \<Rightarrow> Some (N (if b then 1 else 0))
           | Some v \<Rightarrow> Some v)
      | Some other \<Rightarrow> None)"
| "override_feature_id v = None"

fun override_feature_ids :: "attr list \<Rightarrow> attr list option" where
  "override_feature_ids [] = Some []"
| "override_feature_ids (e # es) =
     (case override_feature_id e of
        None \<Rightarrow> None
      | Some k \<Rightarrow>
          (case override_feature_ids es of None \<Rightarrow> None | Some ks \<Rightarrow> Some (k # ks)))"

definition identity_feature_ids :: "item \<Rightarrow> attr list option" where
  "identity_feature_ids identity =
     (case map_of identity ''identity_features'' of
        None \<Rightarrow> Some []
      | Some (L overrides) \<Rightarrow> override_feature_ids overrides
      | Some other \<Rightarrow> None)"

text \<open>Identities for a bulk write, as pairs of an id and an identifier, and a segment
  evaluator that finds one segment.\<close>

definition example_document :: "int \<times> pystr \<Rightarrow> item" where
  "example_document identity = [(''identifier'', S (snd identity))]"

definition example_segments :: "item \<Rightarrow> error + int list" where
  "example_segments identity = Inr [7]"

section \<open>Properties of the scan loop\<close>

declare scan_loop.simps [simp del]

lemma scan_loop_reached:
  "budget_reached s B \<Longrightarrow>
   scan_loop py_add B kw s tbl =
     \<lparr> requests = [], pages = [], yielded = [], capacity_spent = s,
       outcome = Some (CapacityBudgetExceeded B s) \<rparr>"
  by (simp add: scan_loop.simps)

lemma scan_loop_Nil:
  "\<not> budget_reached s B \<Longrightarrow>
   scan_loop py_add B kw s [] =
     \<lparr> requests = [query_kwargs kw], pages = [], yielded = [], capacity_spent = s,
       outcome = Some TransportError \<rparr>"
  by (simp add: scan_loop.simps get_all_items_def)

lemma scan_loop_last:
  "\<not> budget_reached s B \<Longrightarrow> \<not> truthy_key (LastEvaluatedKey (a (query_kwargs kw))) \<Longrightarrow>
   scan_loop py_add B kw s (a # rest) =
     \<lparr> requests = [query_kwargs kw], pages = [a (query_kwargs kw)],
       yielded = Items (a (query_kwargs kw)),
       capacity_spent = spend py_add s (a (query_kwargs kw)), outcome = None \<rparr>"
  by (simp add: scan_loop.simps get_all_items_def Let_def)

lemma scan_loop_more:
  "\<not> budget_reached s B \<Longrightarrow> truthy_key (LastEvaluatedKey (a (query_kwargs kw))) \<Longrightarrow>
   scan_loop py_add B kw s (a # rest) =
     (let r = scan_loop py_add B (kw\<lparr>start_key := LastEvaluatedKey (a (query_kwargs kw))\<rparr>)
                (spend py_add s (a (query_kwargs kw))) rest
      in r\<lparr> requests := query_kwargs kw # requests r,
            pages := a (query_kwargs kw) # pages r,
            yielded := Items (a (query_kwargs kw)) @ yielded r \<rparr>)"
  by (simp add: scan_loop.simps [of py_add B kw s "a # rest"] get_all_items_def Let_def)

lemmas scan_loop_unfold = scan_loop_reached scan_loop_Nil scan_loop_last scan_loop_more

lemma scan_loop_cases [case_names reached exhausted last more]:
  assumes "budget_reached s B \<Longrightarrow> P"
    and "\<not> budget_reached s B \<Longrightarrow> tbl = [] \<Longrightarrow> P"
    and "\<And>a rest. \<not> budget_reached s B \<Longrightarrow> tbl = a # rest \<Longrightarrow>
           \<not> truthy_key (LastEvaluatedKey (a (query_kwargs kw))) \<Longrightarrow> P"
    and "\<And>a rest. \<not> budget_reached s B \<Longrightarrow> tbl = a # rest \<Longrightarrow>
           truthy_key (LastEvaluatedKey (a (query_kwargs kw))) \<Longrightarrow> P"
  shows P
  using assms by (cases tbl) blast+

lemma scan_loop_yielded:
  "yielded (scan_loop py_add B kw s tbl) = concat (map Items (pages (scan_loop py_add B kw s tbl)))"
proof (induction tbl arbitrary: kw s)
  case Nil
  show ?case by (cases "budget_reached s B") (simp_all add: scan_loop_unfold)
next
  case (Cons a rest)
  show ?case
  proof (cases rule: scan_loop_cases [where s = s and B = B and tbl = "a # rest" and kw = kw])
    case more
    then show ?thesis using Cons.IH by (simp add: scan_loop_more Let_def)
  qed (simp_all add: scan_loop_unfold)
qed

lemma scan_loop_spent:
  "capacity_spent (scan_loop py_add B kw s tbl) =
     foldl (spend py_add) s (pages (scan_loop py_add B kw s tbl))"
proof (induction tbl arbitrary: kw s)
  case Nil
  show ?case by (cases "budget_reached s B") (simp_all add: scan_loop_unfold)
next
  case (Cons a rest)
  show ?case
  proof (cases rule: scan_loop_cases [where s = s and B = B and tbl = "a # rest" and kw = kw])
    case more
    then show ?thesis using Cons.IH by (simp add: scan_loop_more Let_def)
  qed (simp_all add: scan_loop_unfold)
qed

lemma scan_loop_pages:
  "pages (scan_loop py_add B kw s tbl) =
     map2 (\<lambda>answer q. answer q) tbl (requests (scan_loop py_add B kw s tbl))"
proof (induction tbl arbitrary: kw s)
  case Nil
  show ?case by (cases "budget_reached s B") (simp_all add: scan_loop_unfold)
next
  case (Cons a rest)
  show ?case
  proof (cases rule: scan_loop_cases [where s = s and B = B and tbl = "a # rest" and kw = kw])
    case more
    then show ?thesis using Cons.IH by (simp add: scan_loop_more Let_def)
  qed (simp_all add: scan_loop_unfold)
qed

lemma scan_loop_ends:
  "(outcome (scan_loop py_add B kw s tbl) = None) =
     (pages (scan_loop py_add B kw s tbl) \<noteq> [] \<and>
      \<not> truthy_key (LastEvaluatedKey (last (pages (scan_loop py_add B kw s tbl)))))"
proof (induction tbl arbitrary: kw s)
  case Nil
  show ?case by (cases "budget_reached s B") (simp_all add: scan_loop_unfold)
next
  case (Cons a rest)
  show ?case
  proof (cases rule: scan_loop_cases [where s = s and B = B and tbl = "a # rest" and kw = kw])
    case more
    then show ?thesis using Cons.IH by (auto simp add: scan_loop_more Let_def)
  qed (simp_all add: scan_loop_unfold)
qed

lemma scan_loop_continues:
  "p \<in> set (butlast (pages (scan_loop py_add B kw s tbl))) \<Longrightarrow> truthy_key (LastEvaluatedKey p)"
proof (induction tbl arbitrary: kw s)
  case Nil
  then show ?case by (cases "budget_reached s B") (simp_all add: scan_loop_unfold)
next
  case (Cons a rest)
  show ?case
  proof (cases rule: scan_loop_cases [where s = s and B = B and tbl = "a # rest" and kw = kw])
    case more
    then show ?thesis using Cons.IH Cons.prems
      by (auto simp add: scan_loop_more Let_def split: if_splits)
  qed (use Cons.prems in \<open>simp_all add: scan_loop_unfold\<close>)
qed

lemma scan_loop_threshold:
  "j < length (requests (scan_loop py_add B kw s tbl)) \<Longrightarrow>
   \<not> budget_reached
       (foldl (spend py_add) s (take j (pages (scan_loop py_add B kw s tbl)))) B"
proof (induction tbl arbitrary: kw s j)
  case Nil
  then show ?case by (cases "budget_reached s B") (simp_all add: scan_loop_unfold)
next
  case (Cons a rest)
  let ?kw' = "kw\<lparr>start_key := LastEvaluatedKey (a (query_kwargs kw))\<rparr>"
  let ?s' = "spend py_add s (a (query_kwargs kw))"
  show ?case
  proof (cases rule: scan_loop_cases [where s = s and B = B and tbl = "a # rest" and kw = kw])
    case more
    show ?thesis
    proof (cases j)
      case 0
      with more show ?thesis by simp
    next
      case (Suc i)
      with more Cons.prems Cons.IH [where j = i and kw = ?kw' and s = ?s']
      show ?thesis by (simp add: scan_loop_more Let_def)
    qed
  qed (use Cons.prems in \<open>simp_all add: scan_loop_unfold\<close>)
qed

lemma scan_loop_raises:
  "(\<exists>b x. outcome (scan_loop py_add B kw s tbl) = Some (CapacityBudgetExceeded b x)) =
     (budget_reached (foldl (spend py_add) s (pages (scan_loop py_add B kw s tbl))) B \<and>
      (pages (scan_loop py_add B kw s tbl) = [] \<or>
       truthy_key (LastEvaluatedKey (last (pages (scan_loop py_add B kw s tbl))))))"
proof (induction tbl arbitrary: kw s)
  case Nil
  show ?case by (cases "budget_reached s B") (simp_all add: scan_loop_unfold)
next
  case (Cons a rest)
  show ?case
  proof (cases rule: scan_loop_cases [where s = s and B = B and tbl = "a # rest" and kw = kw])
    case more
    then show ?thesis using Cons.IH
      by (simp add: scan_loop_more Let_def)
  qed (simp_all add: scan_loop_unfold)
qed

lemma scan_loop_raised:
  "outcome (scan_loop py_add B kw s tbl) = Some (CapacityBudgetExceeded b x) \<Longrightarrow>
   b = B \<and> x = foldl (spend py_add) s (pages (scan_loop py_add B kw s tbl)) \<and>
   length (requests (scan_loop py_add B kw s tbl)) =
     length (pages (scan_loop py_add B kw s tbl))"
proof (induction tbl arbitrary: kw s)
  case Nil
  then show ?case by (cases "budget_reached s B") (simp_all add: scan_loop_unfold)
next
  case (Cons a rest)
  show ?case
  proof (cases rule: scan_loop_cases [where s = s and B = B and tbl = "a # rest" and kw = kw])
    case more
    then show ?thesis
      using Cons.IH [where kw = "kw\<lparr>start_key := LastEvaluatedKey (a (query_kwargs kw))\<rparr>"
                       and s = "spend py_add s (a (query_kwargs kw))"] Cons.prems
      by (simp add: scan_loop_more Let_def)
  qed (use Cons.prems in \<open>simp_all add: scan_loop_unfold\<close>)
qed

lemma scan_loop_request_fields:
  "q \<in> set (requests (scan_loop py_add B kw s tbl)) \<Longrightarrow>
   IndexName q = IndexName (query_kwargs kw) \<and>
   KeyConditionExpression q = KeyConditionExpression (query_kwargs kw) \<and>
   Limit q = Limit (query_kwargs kw) \<and>
   FilterExpression q = FilterExpression (query_kwargs kw) \<and>
   ProjectionExpression q = ProjectionExpression (query_kwargs kw) \<and>
   ReturnConsumedCapacity q = ReturnConsumedCapacity (query_kwargs kw)"
proof (induction tbl arbitrary: kw s)
  case Nil
  then show ?case by (cases "budget_reached s B") (simp_all add: scan_loop_unfold)
next
  case (Cons a rest)
  show ?case
  proof (cases rule: scan_loop_cases [where s = s and B = B and tbl = "a # rest" and kw = kw])
    case more
    then show ?thesis
      using Cons.IH [where kw = "kw\<lparr>start_key := LastEvaluatedKey (a (query_kwargs kw))\<rparr>"
                       and s = "spend py_add s (a (query_kwargs kw))"] Cons.prems
      by (auto simp add: scan_loop_more Let_def query_kwargs_def)
  qed (use Cons.prems in \<open>simp_all add: scan_loop_unfold\<close>)
qed

lemma scan_loop_first_request:
  "requests (scan_loop py_add B kw s tbl) =
     (if budget_reached s B then [] else query_kwargs kw # tl (requests (scan_loop py_add B kw s tbl)))"
  by (cases rule: scan_loop_cases [where s = s and B = B and tbl = tbl and kw = kw])
     (simp_all add: scan_loop_unfold Let_def)


lemma scan_loop_unreported:
  "\<forall>answer \<in> set tbl. reports_only_on_request answer \<Longrightarrow>
   \<not> return_consumed_capacity kw \<Longrightarrow>
   capacity_spent (scan_loop py_add B kw s tbl) = s"
proof (induction tbl arbitrary: kw s)
  case Nil
  show ?case by (cases "budget_reached s B") (simp_all add: scan_loop_unfold)
next
  case (Cons a rest)
  have same: "spend py_add s (a (query_kwargs kw)) = s"
    using Cons.prems
    by (simp add: reports_only_on_request_def reported_def spend_def query_kwargs_def)
  show ?case
  proof (cases rule: scan_loop_cases [where s = s and B = B and tbl = "a # rest" and kw = kw])
    case more
    then show ?thesis
      using Cons.IH [where kw = "kw\<lparr>start_key := LastEvaluatedKey (a (query_kwargs kw))\<rparr>"
                       and s = s] Cons.prems same
      by (simp add: scan_loop_more Let_def)
  qed (use same in \<open>auto simp add: scan_loop_unfold\<close>)
qed


lemma store_page_reports_only_on_request: "reports_only_on_request (store_page page)"
  by (simp add: reports_only_on_request_def store_page_def)


section \<open>The scan: budget, pages, requests\<close>

lemmas example_defs = example_pages_def page_a_def page_b_def page_c_def store_page_def
  query_kwargs_def initial_kwargs_def

lemma example_scan_budget_10:
  "iter_all_items_paginated (+) example_pages ''env'' 100 None (Finite 10) False =
     \<lparr> requests =
         [query_kwargs (initial_kwargs ''env'' 100 None (Finite 10) False),
          query_kwargs ((initial_kwargs ''env'' 100 None (Finite 10) False)
                          \<lparr>start_key := Some [(''composite_key'', S [97])]\<rparr>)],
       pages = [page_a, page_b],
       yielded = [[(''composite_key'', S [97])], [(''composite_key'', S [98])],
                  [(''composite_key'', S [99])]],
       capacity_spent = 11,
       outcome = Some (CapacityBudgetExceeded (Finite 10) 11) \<rparr>"
  by (simp add: iter_all_items_paginated_def example_defs scan_loop.simps
      get_all_items_def reported_def spend_def Let_def)

lemma example_scan_budget_11:
  "iter_all_items_paginated (+) example_pages ''env'' 100 None (Finite 11) False =
     \<lparr> requests =
         [query_kwargs (initial_kwargs ''env'' 100 None (Finite 11) False),
          query_kwargs ((initial_kwargs ''env'' 100 None (Finite 11) False)
                          \<lparr>start_key := Some [(''composite_key'', S [97])]\<rparr>)],
       pages = [page_a, page_b],
       yielded = [[(''composite_key'', S [97])], [(''composite_key'', S [98])],
                  [(''composite_key'', S [99])]],
       capacity_spent = 11,
       outcome = Some (CapacityBudgetExceeded (Finite 11) 11) \<rparr>"
  by (simp add: iter_all_items_paginated_def example_defs scan_loop.simps
      get_all_items_def reported_def spend_def Let_def)

text \<open>With the addition of the rationals the capacity counted is the sum of the figures.\<close>

lemma exact_total:
  "foldl (spend (+)) s ps =
     s + sum_list (map (\<lambda>p. case reported p of None \<Rightarrow> 0 | Some c \<Rightarrow> c) ps)"
  by (induction ps arbitrary: s) (simp_all add: spend_def add.assoc split: option.splits)

text \<open>
  Claim C1. Let \<open>total j\<close> be the capacity counted after the first \<open>j\<close> pages the store
  returned: their figures \<open>c\<^sub>1, \<dots>, c\<^sub>j\<close> added in order, from 0, as the source adds them
  (a page without a figure adds nothing). Page \<open>j + 1\<close> is requested only if \<open>total j\<close> is
  below the budget, so the first page \<open>k\<close> with \<open>B \<le> total (k - 1)\<close> is never requested.
  The scan raises \<^verbatim>\<open>CapacityBudgetExceeded\<close> exactly when the budget is a number \<open>b\<close> with
  \<open>b \<le> total\<close> of all the pages received and the scan would go on (no page received yet,
  or the last one left a continuation key). The error carries the budget and that total,
  and when it is raised every request made has been answered: none follows it.
\<close>

theorem budget_abort:
  "let r = iter_all_items_paginated py_add tbl api_key page_limit projection B overrides_only;
       total = (\<lambda>j. foldl (spend py_add) 0 (take j (pages r)))
   in (\<forall>j < length (requests r). \<forall>b. B = Finite b \<longrightarrow> total j < b) \<and>
      ((\<exists>b x. outcome r = Some (CapacityBudgetExceeded b x)) \<longleftrightarrow>
         (\<exists>b. B = Finite b \<and> b \<le> total (length (pages r))) \<and>
         (pages r = [] \<or> truthy_key (LastEvaluatedKey (last (pages r))))) \<and>
      (\<forall>b x. outcome r = Some (CapacityBudgetExceeded b x) \<longrightarrow>
         b = B \<and> x = total (length (pages r)) \<and> capacity_spent r = x \<and>
         length (requests r) = length (pages r))"
proof -
  let ?kw = "initial_kwargs api_key page_limit projection B overrides_only"
  let ?r = "scan_loop py_add B ?kw 0 tbl"
  let ?total = "\<lambda>j. foldl (spend py_add) 0 (take j (pages ?r))"
  have reached: "budget_reached x B = (\<exists>b. B = Finite b \<and> b \<le> x)" for x
    by (cases B) simp_all
  have below: "\<forall>j < length (requests ?r). \<forall>b. B = Finite b \<longrightarrow> ?total j < b"
    using scan_loop_threshold [where py_add = py_add and B = B and kw = ?kw and s = 0
        and tbl = tbl]
    by (auto simp add: reached not_le)
  have raises: "(\<exists>b x. outcome ?r = Some (CapacityBudgetExceeded b x)) \<longleftrightarrow>
      (\<exists>b. B = Finite b \<and> b \<le> ?total (length (pages ?r))) \<and>
      (pages ?r = [] \<or> truthy_key (LastEvaluatedKey (last (pages ?r))))"
    using scan_loop_raises [where py_add = py_add and B = B and kw = ?kw and s = 0
        and tbl = tbl]
    by (simp add: reached)
  have carried: "\<forall>b x. outcome ?r = Some (CapacityBudgetExceeded b x) \<longrightarrow>
      b = B \<and> x = ?total (length (pages ?r)) \<and> capacity_spent ?r = x \<and>
      length (requests ?r) = length (pages ?r)"
    using scan_loop_raised [where py_add = py_add and B = B and kw = ?kw and s = 0
        and tbl = tbl]
      scan_loop_spent [where py_add = py_add and B = B and kw = ?kw and s = 0 and tbl = tbl]
    by simp
  show ?thesis
    unfolding Let_def iter_all_items_paginated_def
    using below raises carried by blast
qed

theorem budget_abort_witness:
  "outcome (iter_all_items_paginated (+) example_pages ''env'' 100 None (Finite 11) False) =
     Some (CapacityBudgetExceeded (Finite 11) 11) \<and>
   length (requests
     (iter_all_items_paginated (+) example_pages ''env'' 100 None (Finite 11) False)) = 2"
proof -
  let ?r = "iter_all_items_paginated (+) example_pages ''env'' 100 None (Finite 11) False"
  note inst = budget_abort [where py_add = "(+)" and tbl = example_pages
      and api_key = "''env''" and page_limit = 100 and projection = None
      and B = "Finite 11" and overrides_only = False, unfolded Let_def]
  have pages: "pages ?r = [page_a, page_b]"
    by (simp add: example_scan_budget_11)
  have "foldl (spend (+)) 0 (take (length (pages ?r)) (pages ?r)) = 11"
    by (simp add: pages spend_def reported_def page_a_def page_b_def)
  moreover have "truthy_key (LastEvaluatedKey (last (pages ?r)))"
    by (simp add: pages page_b_def)
  ultimately have "\<exists>b x. outcome ?r = Some (CapacityBudgetExceeded b x)"
    using inst by auto
  then obtain b x where raised: "outcome ?r = Some (CapacityBudgetExceeded b x)"
    by blast
  with inst have "b = Finite 11" and "x = foldl (spend (+)) 0 (take (length (pages ?r)) (pages ?r))"
    and "length (requests ?r) = length (pages ?r)"
    by blast+
  with raised pages
    \<open>foldl (spend (+)) 0 (take (length (pages ?r)) (pages ?r)) = 11\<close>
  show ?thesis by simp
qed

text \<open>
  Claim C2. The pages received are the store's answers to the requests, in order; the
  items yielded are the concatenation of the items of those pages, in page order; every
  page but the last carried a continuation key, and the generator is exhausted exactly
  when the last page received carries none (as the source tests it: \<^verbatim>\<open>None\<close> or an
  empty key).
\<close>

theorem scan_yields_pages:
  "let r = iter_all_items_paginated py_add tbl api_key page_limit projection B overrides_only
   in pages r = map2 (\<lambda>answer q. answer q) tbl (requests r) \<and>
      yielded r = concat (map Items (pages r)) \<and>
      (\<forall>p \<in> set (butlast (pages r)). truthy_key (LastEvaluatedKey p)) \<and>
      (outcome r = None \<longleftrightarrow>
         pages r \<noteq> [] \<and> \<not> truthy_key (LastEvaluatedKey (last (pages r))))"
  unfolding Let_def iter_all_items_paginated_def
  using scan_loop_pages [where B = B and s = 0 and tbl = tbl and py_add = py_add]
    scan_loop_yielded [where B = B and s = 0 and tbl = tbl and py_add = py_add]
    scan_loop_ends [where B = B and s = 0 and tbl = tbl and py_add = py_add]
    scan_loop_continues [where B = B and s = 0 and tbl = tbl and py_add = py_add]
  by blast

lemma example_scan_unbounded:
  "iter_all_items_paginated (+) example_pages ''env'' 100 None Infinity False =
     \<lparr> requests =
         [query_kwargs (initial_kwargs ''env'' 100 None Infinity False),
          query_kwargs ((initial_kwargs ''env'' 100 None Infinity False)
                          \<lparr>start_key := Some [(''composite_key'', S [97])]\<rparr>),
          query_kwargs ((initial_kwargs ''env'' 100 None Infinity False)
                          \<lparr>start_key := Some [(''composite_key'', S [99])]\<rparr>)],
       pages = map (\<lambda>p. p\<lparr>ConsumedCapacity := None\<rparr>) [page_a, page_b, page_c],
       yielded = [[(''composite_key'', S [97])], [(''composite_key'', S [98])],
                  [(''composite_key'', S [99])], [(''composite_key'', S [100])]],
       capacity_spent = 0,
       outcome = None \<rparr>"
  by (simp add: iter_all_items_paginated_def example_defs scan_loop.simps
      get_all_items_def reported_def spend_def Let_def)

theorem scan_yields_pages_witness:
  "yielded (iter_all_items_paginated (+) example_pages ''env'' 100 None Infinity False) =
     [[(''composite_key'', S [97])], [(''composite_key'', S [98])],
      [(''composite_key'', S [99])], [(''composite_key'', S [100])]] \<and>
   outcome (iter_all_items_paginated (+) example_pages ''env'' 100 None Infinity False) = None"
  using scan_yields_pages [where py_add = "(+)" and tbl = example_pages
      and api_key = "''env''" and page_limit = 100 and projection = None and B = Infinity
      and overrides_only = False]
  by (simp add: example_scan_unbounded)

text \<open>
  Claim C5, amended. The budget is checked before every request, the first included, with
  nothing spent yet. For a budget above zero, or unbounded, the first page is requested,
  with the initial arguments. For a budget of zero or less no page is requested and
  \<^verbatim>\<open>CapacityBudgetExceeded\<close> is raised with the budget and 0 spent.
\<close>

theorem first_page_attempted:
  "let r = iter_all_items_paginated py_add tbl api_key page_limit projection B overrides_only
   in (\<not> budget_reached 0 B \<longrightarrow>
         requests r \<noteq> [] \<and>
         hd (requests r) =
           query_kwargs (initial_kwargs api_key page_limit projection B overrides_only)) \<and>
      (budget_reached 0 B \<longrightarrow>
         requests r = [] \<and> outcome r = Some (CapacityBudgetExceeded B 0))"
proof -
  let ?kw = "initial_kwargs api_key page_limit projection B overrides_only"
  let ?r = "scan_loop py_add B ?kw 0 tbl"
  have first: "requests ?r = query_kwargs ?kw # tl (requests ?r)" if "\<not> budget_reached 0 B"
    using scan_loop_first_request [where B = B and kw = ?kw and s = 0 and tbl = tbl
        and py_add = py_add] that by simp
  have "requests ?r \<noteq> [] \<and> hd (requests ?r) = query_kwargs ?kw" if "\<not> budget_reached 0 B"
    using first [OF that] by (metis list.sel(1) list.distinct(1))
  moreover have "requests ?r = [] \<and> outcome ?r = Some (CapacityBudgetExceeded B 0)"
    if "budget_reached 0 B"
    using that by (simp add: scan_loop_reached)
  ultimately show ?thesis
    unfolding Let_def iter_all_items_paginated_def by blast
qed

theorem first_page_attempted_witness:
  "hd (requests (iter_all_items_paginated (+) example_pages ''env'' 100 None (Finite 10) False)) =
     query_kwargs (initial_kwargs ''env'' 100 None (Finite 10) False) \<and>
   requests (iter_all_items_paginated (+) [] ''env'' 100 None (Finite (- 1)) False) = []"
  using first_page_attempted [where py_add = "(+)" and B = "Finite 10" and tbl = example_pages
      and api_key = "''env''" and page_limit = 100 and projection = None
      and overrides_only = False]
    first_page_attempted [where py_add = "(+)" and B = "Finite (- 1)" and tbl = "[]"
      and api_key = "''env''" and page_limit = 100 and projection = None
      and overrides_only = False]
  by (simp add: Let_def)

text \<open>
  Claim C5 as stated fails for a budget of zero: the scan raises before any request.
\<close>

theorem zero_budget_counterexample:
  "requests (iter_all_items_paginated (+) example_pages ''env'' 100 None (Finite 0) False) = [] \<and>
   outcome (iter_all_items_paginated (+) example_pages ''env'' 100 None (Finite 0) False) =
     Some (CapacityBudgetExceeded (Finite 0) 0)"
  by (simp add: iter_all_items_paginated_def scan_loop.simps)

text \<open>
  Claim C6. Every request asks for consumed capacity (\<^verbatim>\<open>TOTAL\<close>) exactly when the budget
  is not unbounded. With an unbounded budget \<^verbatim>\<open>CapacityBudgetExceeded\<close> is never raised,
  and, the store reporting capacity only when asked, nothing is ever added to
  \<^verbatim>\<open>capacity_spent\<close>.
\<close>

theorem unbounded_scan_asks_no_capacity:
  "let r = iter_all_items_paginated py_add tbl api_key page_limit projection B overrides_only
   in (\<forall>q \<in> set (requests r).
         ReturnConsumedCapacity q = (if B = Infinity then None else Some ''TOTAL'')) \<and>
      (B = Infinity \<longrightarrow>
         (\<forall>b x. outcome r \<noteq> Some (CapacityBudgetExceeded b x)) \<and>
         ((\<forall>answer \<in> set tbl. reports_only_on_request answer) \<longrightarrow> capacity_spent r = 0))"
proof -
  let ?kw = "initial_kwargs api_key page_limit projection B overrides_only"
  let ?r = "scan_loop py_add B ?kw 0 tbl"
  have asked: "\<forall>q \<in> set (requests ?r).
      ReturnConsumedCapacity q = (if B = Infinity then None else Some ''TOTAL'')"
    using scan_loop_request_fields [where B = B and kw = ?kw and s = 0 and tbl = tbl
        and py_add = py_add]
    by (simp add: query_kwargs_def initial_kwargs_def)
  have never: "outcome ?r \<noteq> Some (CapacityBudgetExceeded b x)" if "B = Infinity" for b x
    using scan_loop_raises [where B = B and kw = ?kw and s = 0 and tbl = tbl
        and py_add = py_add] that by auto
  have unspent: "capacity_spent ?r = 0"
    if "B = Infinity" and "\<forall>answer \<in> set tbl. reports_only_on_request answer"
    using scan_loop_unreported [where B = B and kw = ?kw and s = 0 and tbl = tbl
        and py_add = py_add] that by (simp add: initial_kwargs_def)
  show ?thesis
    unfolding Let_def iter_all_items_paginated_def using asked never unspent by blast
qed

theorem unbounded_scan_asks_no_capacity_witness:
  "capacity_spent (iter_all_items_paginated (+) example_pages ''env'' 100 None Infinity False) = 0 \<and>
   map ReturnConsumedCapacity
     (requests (iter_all_items_paginated (+) example_pages ''env'' 100 None Infinity False)) =
     [None, None, None] \<and>
   map ReturnConsumedCapacity
     (requests (iter_all_items_paginated (+) example_pages ''env'' 100 None (Finite 10) False)) =
     [Some ''TOTAL'', Some ''TOTAL'']"
proof -
  have "\<forall>answer \<in> set example_pages. reports_only_on_request answer"
    by (simp add: example_pages_def store_page_reports_only_on_request)
  then have "capacity_spent
      (iter_all_items_paginated (+) example_pages ''env'' 100 None Infinity False) = 0"
    using unbounded_scan_asks_no_capacity [where py_add = "(+)" and B = Infinity and tbl = example_pages
        and api_key = "''env''" and page_limit = 100 and projection = None
        and overrides_only = False]
    unfolding Let_def by blast
  then show ?thesis
    by (simp add: example_scan_unbounded example_scan_budget_10 query_kwargs_def
        initial_kwargs_def)
qed


lemma single_page_scan:
  "iter_all_items_paginated py_add (single_page identities) api_key page_limit None Infinity True =
     \<lparr> requests = [query_kwargs (initial_kwargs api_key page_limit None Infinity True)],
       pages = [\<lparr> Items = filter (\<lambda>it. map_of it ''identity_features'' \<noteq> Some (L []))
                                identities,
                  LastEvaluatedKey = None, ConsumedCapacity = None \<rparr>],
       yielded = filter (\<lambda>it. map_of it ''identity_features'' \<noteq> Some (L [])) identities,
       capacity_spent = 0,
       outcome = None \<rparr>"
  by (simp add: iter_all_items_paginated_def single_page_def store_page_def scan_loop.simps
      get_all_items_def reported_def spend_def Let_def query_kwargs_def initial_kwargs_def)


section \<open>The aggregators\<close>

lemma unique_feature_ids_result:
  "map feature_id_default fs = map Inr ks \<Longrightarrow>
   \<exists>xs. unique_feature_ids fs acc = Inr xs \<and> set xs = set ks \<union> set acc \<and>
        (distinct acc \<longrightarrow> distinct xs)"
proof (induction fs arbitrary: ks acc)
  case Nil
  then show ?case by simp
next
  case (Cons f fs)
  then obtain k ks' where ks: "ks = k # ks'" "feature_id_default f = Inr k"
    "map feature_id_default fs = map Inr ks'"
    by (cases ks) auto
  from Cons.IH [OF ks(3), of "List.insert k acc"] ks(1,2)
  show ?case by auto
qed

lemma count_identity_distinct:
  "distinct ks \<Longrightarrow>
   count_identity ks m = (\<lambda>k. if k \<in> set ks then Some (get_count m k + 1) else m k)"
proof (induction ks arbitrary: m)
  case Nil
  show ?case by simp
next
  case (Cons k ks)
  then show ?case by (auto simp add: get_count_def fun_eq_iff)
qed

lemma override_feature_id_default:
  "override_feature_id e = Some k \<Longrightarrow> feature_id_default e = Inr k"
proof (cases e)
  case (M kvs)
  assume given: "override_feature_id e = Some k"
  show ?thesis
  proof (cases "map_of kvs ''feature''")
    case None
    with M given show ?thesis by (auto simp add: feature_id_default_def)
  next
    case (Some feature)
    with given M obtain fkvs where feature: "feature = M fkvs"
      by (cases feature) simp_all
    show ?thesis
    proof (cases "map_of fkvs ''id''")
      case None
      with M Some feature given show ?thesis by (auto simp add: feature_id_default_def)
    next
      case id: (Some v)
      with M Some feature given have "py_hashable v = Inr k"
        by (cases v) auto
      with M Some feature id show ?thesis by (simp add: feature_id_default_def)
    qed
  qed
qed simp_all

lemma override_feature_ids_default:
  "override_feature_ids es = Some ks \<Longrightarrow> map feature_id_default es = map Inr ks"
proof (induction es arbitrary: ks)
  case Nil
  then show ?case by simp
next
  case (Cons e es)
  then show ?case
    by (auto simp add: override_feature_id_default split: option.splits)
qed

lemma identity_feature_ids_iter:
  assumes "identity_feature_ids identity = Some ids"
  shows "\<exists>overrides.
           py_iter (case map_of identity ''identity_features'' of
                      None \<Rightarrow> L [] | Some v \<Rightarrow> v) = Inr overrides \<and>
           map feature_id_default overrides = map Inr ids"
proof (cases "map_of identity ''identity_features''")
  case None
  with assms show ?thesis by (simp add: identity_feature_ids_def)
next
  case (Some v)
  with assms obtain overrides where "v = L overrides"
    "override_feature_ids overrides = Some ids"
    by (cases v) (simp_all add: identity_feature_ids_def)
  with Some show ?thesis by (simp add: override_feature_ids_default)
qed

lemma feature_counts_result:
  "map identity_feature_ids identities = map Some idss \<Longrightarrow>
   feature_counts identities None m =
     Inr (\<lambda>k. let n = length (filter (\<lambda>ids. k \<in> set ids) idss)
              in if n = 0 then m k else Some (get_count m k + n))"
proof (induction identities arbitrary: idss m)
  case Nil
  then show ?case by simp
next
  case (Cons identity rest)
  then obtain ids idss' where idss: "idss = ids # idss'"
    "identity_feature_ids identity = Some ids"
    "map identity_feature_ids rest = map Some idss'"
    by (cases idss) auto
  from identity_feature_ids_iter [OF idss(2)] obtain overrides where
    it: "py_iter (case map_of identity ''identity_features'' of
                    None \<Rightarrow> L [] | Some v \<Rightarrow> v) = Inr overrides"
    and read: "map feature_id_default overrides = map Inr ids"
    by blast
  from unique_feature_ids_result [OF read, of "[]"] obtain xs where
    xs: "unique_feature_ids overrides [] = Inr xs" "set xs = set ids" "distinct xs"
    by auto
  let ?m1 = "\<lambda>k. if k \<in> set ids then Some (get_count m k + 1) else m k"
  have step: "feature_counts (identity # rest) None m = feature_counts rest None ?m1"
    using it xs by (simp add: count_identity_distinct)
  have "feature_counts rest None ?m1 =
      Inr (\<lambda>k. let n = length (filter (\<lambda>ids. k \<in> set ids) idss')
               in if n = 0 then ?m1 k else Some (get_count ?m1 k + n))"
    by (rule Cons.IH [OF idss(3)])
  also have "(\<lambda>k. let n = length (filter (\<lambda>ids. k \<in> set ids) idss')
               in if n = 0 then ?m1 k else Some (get_count ?m1 k + n)) =
      (\<lambda>k. let n = length (filter (\<lambda>ids. k \<in> set ids) idss)
            in if n = 0 then m k else Some (get_count m k + n))"
    by (auto simp add: fun_eq_iff idss(1) Let_def get_count_def)
  finally show ?case using step by simp
qed

lemmas document_defs = feature_id_subscript_def feature_id_default_def override_def
  identity_overrides_def get_identity_overrides_count_def
  get_identity_override_feature_counts_def

text \<open>
  Claim C3 fails on the code. For the identity whose override list is
  \<^verbatim>\<open>[{feature: {id: 1}}, {feature: {id: 1}}, {feature: {id: 2}}]\<close>,
  \<^verbatim>\<open>get_identity_overrides_count\<close> raises \<^verbatim>\<open>KeyError\<close>: it reads \<^verbatim>\<open>f["feature_id"]\<close>,
  which the entries do not have. \<^verbatim>\<open>get_identity_override_feature_counts\<close> reads
  \<^verbatim>\<open>feature.id\<close> and counts the identity once for feature 1 and once for feature 2.
\<close>

theorem duplicate_overrides_key_error:
  "get_identity_overrides_count (+) (single_page [identity_112]) 100 ''env'' =
     Inl (KeyError ''feature_id'') \<and>
   (\<exists>counts.
      get_identity_override_feature_counts (+) (single_page [identity_112]) 100 ''env'' =
        Inr counts \<and>
      counts (N 1) = Some 1 \<and> counts (N 2) = Some 1 \<and> counts (N 3) = None)"
  by (simp add: document_defs single_page_scan identity_112_def get_count_def)

text \<open>On entries that do carry a top-level \<^verbatim>\<open>feature_id\<close>, with the ids 1, 1, 2,
  \<^verbatim>\<open>get_identity_overrides_count\<close> counts 2.\<close>

lemma keyed_overrides_counted_once:
  "get_identity_overrides_count (+) (single_page [identity_keyed_112]) 100 ''env'' = Inr 2"
  by (simp add: document_defs single_page_scan identity_keyed_112_def)

text \<open>
  Claim C4, amended, for \<^verbatim>\<open>get_identity_override_feature_counts\<close>. Suppose the scan ends
  normally and every identity yielded has feature ids: its \<^verbatim>\<open>identity_features\<close> is
  absent or a list of dicts, in each of them \<^verbatim>\<open>feature\<close> is absent or a dict, and the
  \<^verbatim>\<open>id\<close> in it is absent or hashable. Then the aggregation raises nothing and returns the
  dict that gives every feature id the number of identities yielded that have an override
  with that id (ids of no identity are not in the dict), where the id of an override with
  no \<^verbatim>\<open>feature\<close>, or with no \<^verbatim>\<open>id\<close> in it, is 0, and an id that is present is used as it
  is.
\<close>

theorem missing_feature_id_counts_as_zero:
  assumes "outcome (iter_all_items_paginated py_add tbl api_key page_limit None Infinity True)
             = None"
    and "map identity_feature_ids
           (yielded (iter_all_items_paginated py_add tbl api_key page_limit None Infinity True))
         = map Some idss"
  shows "get_identity_override_feature_counts py_add tbl page_limit api_key =
           Inr (\<lambda>k. let n = length (filter (\<lambda>ids. k \<in> set ids) idss)
                    in if n = 0 then None else Some n)"
proof -
  have "(\<lambda>k. let n = length (filter (\<lambda>ids. k \<in> set ids) idss)
            in if n = 0 then Map.empty k else Some (get_count Map.empty k + n)) =
        (\<lambda>k. let n = length (filter (\<lambda>ids. k \<in> set ids) idss)
            in if n = 0 then None else Some n)"
    by (auto simp add: fun_eq_iff Let_def get_count_def)
  with feature_counts_result [OF assms(2), of Map.empty] assms(1)
  show ?thesis
    by (simp add: get_identity_override_feature_counts_def Let_def)
qed

theorem missing_feature_id_counts_as_zero_witness:
  "\<exists>counts.
     get_identity_override_feature_counts (+)
       (single_page [identity_no_id, identity_2, identity_text_id]) 100 ''env'' = Inr counts \<and>
     counts (N 0) = Some 1 \<and> counts (N 2) = Some 1 \<and> counts (S [120]) = Some 1 \<and>
     counts (N 1) = None"
proof -
  let ?tbl = "single_page [identity_no_id, identity_2, identity_text_id]"
  let ?g = "iter_all_items_paginated (+) ?tbl ''env'' 100 None Infinity True"
  have ended: "outcome ?g = None"
    by (simp add: single_page_scan)
  have ids: "map identity_feature_ids (yielded ?g) = map Some [[N 0], [N 2], [S [120]]]"
    by (simp add: single_page_scan identity_no_id_def identity_2_def identity_text_id_def
        identity_feature_ids_def override_def)
  show ?thesis
    using missing_feature_id_counts_as_zero [OF ended ids]
    by simp
qed

text \<open>
  Claim C4 as stated fails: \<^verbatim>\<open>get_identity_overrides_count\<close> reads \<^verbatim>\<open>f["feature_id"]\<close>
  and raises \<^verbatim>\<open>KeyError\<close> on an entry without it, and
  \<^verbatim>\<open>get_identity_override_feature_counts\<close> raises \<^verbatim>\<open>AttributeError\<close> on an entry whose
  \<^verbatim>\<open>feature\<close> is \<^verbatim>\<open>None\<close>.
\<close>

theorem malformed_feature_id_counterexample:
  "get_identity_overrides_count (+) (single_page [identity_no_id]) 100 ''env'' =
     Inl (KeyError ''feature_id'') \<and>
   get_identity_override_feature_counts (+) (single_page [identity_null_feature]) 100 ''env'' =
     Inl AttributeError"
  by (simp add: get_identity_overrides_count_def get_identity_override_feature_counts_def
      single_page_scan identity_no_id_def identity_null_feature_def identity_overrides_def
      feature_id_subscript_def feature_id_default_def)

section \<open>Bulk writes\<close>

text \<open>
  What \<^verbatim>\<open>write_identities\<close> does: it gives the batch writer the documents whose
  identifier has at most 1024 characters, in order.
\<close>

lemma write_identities_by_characters:
  assumes "\<forall>identity \<in> set identities.
             \<exists>s. map_of (to_document identity) ''identifier'' = Some (S s)"
  shows "put_requests (write_identities to_document identity_id identities) =
           map to_document
             (filter (\<lambda>identity. \<forall>s. map_of (to_document identity) ''identifier'' = Some (S s)
                                   \<longrightarrow> length s \<le> 1024) identities) \<and>
         raised (write_identities to_document identity_id identities) = None"
  using assms
proof (induction identities)
  case Nil
  show ?case by simp
next
  case (Cons identity rest)
  then obtain s where "map_of (to_document identity) ''identifier'' = Some (S s)"
    by auto
  with Cons show ?case by (simp add: Let_def)
qed

text \<open>
  Claim C8 fails on the code. The identifier made of 513 times the character U+00E9 is
  1026 bytes long in UTF-8, over the limit of a sort key, and 513 characters long, which
  is what \<^verbatim>\<open>len\<close> counts: the document is given to the batch writer and no warning is
  logged.
\<close>

theorem identifier_over_1024_bytes_is_written:
  "encoded_length (replicate 513 233) = 1026 \<and>
   put_requests (write_identities example_document fst
                   [(1, replicate 513 233), (2, [97])]) =
     [example_document (1, replicate 513 233), example_document (2, [97])] \<and>
   warnings (write_identities example_document fst
               [(1, replicate 513 233), (2, [97])]) = []"
  by (simp add: encoded_length_def utf8_bytes_def example_document_def sum_list_replicate
      Let_def)

text \<open>An identifier of 1025 ASCII characters is skipped, the rest of the batch written.\<close>

lemma identifier_over_1024_characters_is_skipped:
  "put_requests (write_identities example_document fst
                   [(1, replicate 1025 97), (2, [97])]) = [example_document (2, [97])] \<and>
   warnings (write_identities example_document fst
               [(1, replicate 1025 97), (2, [97])]) = [1]"
  by (simp add: example_document_def Let_def)

section \<open>Lookups\<close>

text \<open>
  Claim C9. When the query on the uuid index finds no item, \<^verbatim>\<open>get_item_from_uuid_or_404\<close>
  raises \<^verbatim>\<open>NotFound\<close>, and \<^verbatim>\<open>get_segment_ids\<close>, called with that uuid as
  \<^verbatim>\<open>identity_pk\<close> and no identity model, returns the empty list. (An empty string is no
  \<^verbatim>\<open>identity_pk\<close>: the guard of \<^verbatim>\<open>get_segment_ids\<close> raises \<^verbatim>\<open>ValueError\<close> before
  any lookup.)
\<close>

theorem uuid_miss_not_found_or_empty:
  assumes "tbl = answer # rest" and "Items (answer (uuid_query uuid)) = []"
  shows "fst (get_item_from_uuid_or_404 tbl uuid) = Inl NotFound \<and>
         (uuid \<noteq> [] \<longrightarrow>
            fst (get_segment_ids tbl model_validate segments_of (Some uuid) None) = Inr [])"
  using assms
  by (simp add: get_item_from_uuid_or_404_def get_item_from_uuid_def)

theorem uuid_miss_not_found_or_empty_witness:
  "fst (get_item_from_uuid_or_404 (single_page []) ''4f1c'') = Inl NotFound \<and>
   fst (get_segment_ids (single_page []) Inr example_segments (Some ''4f1c'') None) = Inr []"
  using uuid_miss_not_found_or_empty [where tbl = "single_page []" and uuid = "''4f1c''"
      and answer = "store_page \<lparr> Items = [], LastEvaluatedKey = None, ConsumedCapacity = None \<rparr>"
      and rest = "[]" and model_validate = Inr and segments_of = example_segments]
  by (simp add: single_page_def store_page_def uuid_query_def)

text \<open>
  Claim C10. For an item with a string \<^verbatim>\<open>composite_key\<close>, \<^verbatim>\<open>put_item\<close> followed by
  \<^verbatim>\<open>get_item\<close> of that key gives the item back; the other keys read as before.
\<close>

theorem put_then_get:
  assumes "map_of it ''composite_key'' = Some (S k)"
  shows "\<exists>t'. put_item t it = Inr t' \<and> get_item t' k = Some it \<and>
              (\<forall>k'. k' \<noteq> k \<longrightarrow> get_item t' k' = get_item t k')"
  using assms
  by (simp add: put_item_def get_item_def table_put_item_def table_get_item_def)

theorem put_then_get_witness:
  "\<exists>t'. put_item Map.empty [(''composite_key'', S [101, 95, 117]), (''identifier'', S [117])]
           = Inr t' \<and>
        get_item t' [101, 95, 117] =
          Some [(''composite_key'', S [101, 95, 117]), (''identifier'', S [117])]"
  using put_then_get [where t = Map.empty and k = "[101, 95, 117]"
      and it = "[(''composite_key'', S [101, 95, 117]), (''identifier'', S [117])]"]
  by auto

end
